theory Spec2Isabelle
  imports Main
begin

section \<open>The mark store of \<^verbatim>\<open>main.go\<close>\<close>

text \<open>
  The program keeps its bookmarks in one file, \<^verbatim>\<open>~/.mark\<close>, one path per line.
  Every function of \<^verbatim>\<open>main.go\<close> is embedded as a function on the state of that file;
  the functions of Go's standard library it calls (\<^verbatim>\<open>os.OpenFile\<close>, \<^verbatim>\<open>os.Truncate\<close>,
  \<^verbatim>\<open>bufio.Scanner\<close>, \<^verbatim>\<open>strings.Split\<close>, \<^verbatim>\<open>strconv.Atoi\<close>) are modelled from their
  documented behaviour.
\<close>

subsection \<open>Errors\<close>

datatype errno = ENOENT | EACCES | EIO | ENOSPC

datatype num_err = ErrSyntax | ErrRange

text \<open>
  A Go \<^verbatim>\<open>error\<close> value: \<^verbatim>\<open>errors.New(msg)\<close>, the \<^verbatim>\<open>*fs.PathError\<close> of the \<^verbatim>\<open>os\<close>
  package (operation and cause) and the \<^verbatim>\<open>*strconv.NumError\<close> of \<^verbatim>\<open>strconv.Atoi\<close>
  (input and cause). A function returning \<^verbatim>\<open>error\<close> returns \<open>error option\<close>
  (\<open>None\<close> is \<^verbatim>\<open>nil\<close>); one returning \<^verbatim>\<open>(T, error)\<close> returns \<open>error + T\<close>.
\<close>

datatype error =
    errors_New string
  | PathError string errno
  | NumError string num_err

subsection \<open>The backing file\<close>

text \<open>
  \<open>markfile\<close> is the content of \<^verbatim>\<open>l.DBFile\<close>, \<open>None\<close> while the file does not exist.
  \<open>faults\<close> is the environment's schedule for the system calls to come: each call
  takes the head, and fails with that \<open>errno\<close> when it is \<open>Some\<close>; with the schedule
  used up, no call fails for a reason outside the file's state.
\<close>

record fs =
  markfile :: "string option"
  faults :: "errno option list"

definition contents :: "fs \<Rightarrow> string" where
  "contents s = (case markfile s of None \<Rightarrow> [] | Some c \<Rightarrow> c)"

definition next_fault :: "fs \<Rightarrow> errno option \<times> fs" where
  "next_fault s =
     (case faults s of
        [] \<Rightarrow> (None, s)
      | f # rest \<Rightarrow> (f, s\<lparr>faults := rest\<rparr>))"

datatype flag = O_RDONLY | O_WRONLY | O_APPEND | O_CREATE

text \<open>
  \<^verbatim>\<open>os.OpenFile(l.DBFile, flags, l.filePerm)\<close>: with \<^verbatim>\<open>O_CREATE\<close> a missing file is
  created empty; without it the call fails with \<open>ENOENT\<close>.
\<close>

definition OpenFile :: "flag list \<Rightarrow> fs \<Rightarrow> error option \<times> fs" where
  "OpenFile flags s =
     (case next_fault s of
        (Some e, s') \<Rightarrow> (Some (PathError ''open'' e), s')
      | (None, s') \<Rightarrow>
          (case markfile s' of
             Some c \<Rightarrow> (None, s')
           | None \<Rightarrow>
               if O_CREATE \<in> set flags then (None, s'\<lparr>markfile := Some []\<rparr>)
               else (Some (PathError ''open'' ENOENT), s')))"

text \<open>
  \<^verbatim>\<open>file.WriteString(str)\<close> on the handle opened with \<^verbatim>\<open>O_APPEND\<close>: the bytes go to
  the end of the file.
\<close>

definition WriteString :: "string \<Rightarrow> fs \<Rightarrow> error option \<times> fs" where
  "WriteString str s =
     (case next_fault s of
        (Some e, s') \<Rightarrow> (Some (PathError ''write'' e), s')
      | (None, s') \<Rightarrow> (None, s'\<lparr>markfile := Some (contents s' @ str)\<rparr>))"

text \<open>\<^verbatim>\<open>os.Truncate(l.DBFile, 0)\<close>: it never creates the file.\<close>

definition Truncate :: "fs \<Rightarrow> error option \<times> fs" where
  "Truncate s =
     (case next_fault s of
        (Some e, s') \<Rightarrow> (Some (PathError ''truncate'' e), s')
      | (None, s') \<Rightarrow>
          (case markfile s' of
             None \<Rightarrow> (Some (PathError ''truncate'' ENOENT), s')
           | Some c \<Rightarrow> (None, s'\<lparr>markfile := Some []\<rparr>)))"

subsection \<open>\<^verbatim>\<open>bufio.Scanner\<close> with the default split function\<close>

definition MaxScanTokenSize :: nat where
  "MaxScanTokenSize = 64 * 1024"

definition dropCR :: "string \<Rightarrow> string" where
  "dropCR data = (if data \<noteq> [] \<and> last data = CHR 0x0D then butlast data else data)"

text \<open>
  The loop \<^verbatim>\<open>for scanner.Scan() { results = append(results, scanner.Text()) }\<close>.
  \<open>cur\<close> is the line read so far. A line ends at a newline or at the end of the input
  (an empty last line is no token); one trailing carriage return is dropped. A line
  that does not fit the scanner's buffer, with its newline, makes \<^verbatim>\<open>Scan\<close> return
  false: the loop stops there, and \<^verbatim>\<open>List\<close> never looks at \<^verbatim>\<open>scanner.Err()\<close>.
\<close>

fun Scan :: "string \<Rightarrow> string \<Rightarrow> string list" where
  "Scan cur [] =
     (if cur = [] then []
      else if length cur < MaxScanTokenSize then [dropCR cur]
      else [])"
| "Scan cur (c # cs) =
     (if c = CHR 0x0A then
        (if length cur < MaxScanTokenSize then dropCR cur # Scan [] cs else [])
      else Scan (cur @ [c]) cs)"

subsection \<open>\<^verbatim>\<open>LocalMarkDB\<close>\<close>

definition LocalMarkDB_List :: "fs \<Rightarrow> (error + string list) \<times> fs" where
  "LocalMarkDB_List s =
     (case OpenFile [O_RDONLY, O_CREATE] s of
        (Some err, s') \<Rightarrow> (Inl err, s')
      | (None, s') \<Rightarrow> (Inr (Scan [] (contents s')), s'))"

definition LocalMarkDB_Get :: "int \<Rightarrow> fs \<Rightarrow> (error + string) \<times> fs" where
  "LocalMarkDB_Get index s =
     (if index < 0 then (Inl (errors_New ''invalid index''), s)
      else
        (case LocalMarkDB_List s of
           (Inl err, s') \<Rightarrow> (Inl err, s')
         | (Inr paths, s') \<Rightarrow>
             if index < 0 \<or> index > int (length paths) - 1
             then (Inl (errors_New ''invalid index''), s')
             else (Inr (paths ! nat index), s')))"

definition LocalMarkDB_Clear :: "fs \<Rightarrow> error option \<times> fs" where
  "LocalMarkDB_Clear s = Truncate s"

text \<open>
  The write loop of \<^verbatim>\<open>Add\<close>: \<^verbatim>\<open>err\<close> is overwritten by every write, so the loop
  returns the result of the last one.
\<close>

fun write_paths :: "string list \<Rightarrow> error option \<Rightarrow> fs \<Rightarrow> error option \<times> fs" where
  "write_paths [] err s = (err, s)"
| "write_paths (item # rest) err s =
     (case WriteString (item @ [CHR 0x0A]) s of
        (err', s') \<Rightarrow> write_paths rest err' s')"

definition LocalMarkDB_Add :: "string \<Rightarrow> fs \<Rightarrow> error option \<times> fs" where
  "LocalMarkDB_Add path s =
     (case LocalMarkDB_List s of
        (Inl err, s1) \<Rightarrow> (Some err, s1)
      | (Inr writtenPaths, s1) \<Rightarrow>
          (let paths = [path] @ writtenPaths;
               s2 = snd (LocalMarkDB_Clear s1)
           in case OpenFile [O_APPEND, O_WRONLY, O_CREATE] s2 of
                (Some err, s3) \<Rightarrow> (Some err, s3)
              | (None, s3) \<Rightarrow> write_paths paths None s3))"

text \<open>
  The loop of \<^verbatim>\<open>Delete\<close>: every path but the one at \<^verbatim>\<open>suppliedIndex\<close> is handed to
  \<^verbatim>\<open>Add\<close>, whose result is dropped.
\<close>

fun Delete_loop :: "int \<Rightarrow> int \<Rightarrow> string list \<Rightarrow> fs \<Rightarrow> fs" where
  "Delete_loop suppliedIndex index [] s = s"
| "Delete_loop suppliedIndex index (path # rest) s =
     (if index = suppliedIndex then Delete_loop suppliedIndex (index + 1) rest s
      else Delete_loop suppliedIndex (index + 1) rest (snd (LocalMarkDB_Add path s)))"

definition LocalMarkDB_Delete :: "int \<Rightarrow> fs \<Rightarrow> error option \<times> fs" where
  "LocalMarkDB_Delete suppliedIndex s =
     (case LocalMarkDB_List s of
        (Inl err, s1) \<Rightarrow> (Some err, s1)
      | (Inr paths, s1) \<Rightarrow>
          if suppliedIndex < 0 \<or> suppliedIndex \<ge> int (length paths)
          then (Some (errors_New ''invalid index''), s1)
          else (None, Delete_loop suppliedIndex 0 paths (snd (LocalMarkDB_Clear s1))))"

section \<open>The command line\<close>

subsection \<open>\<^verbatim>\<open>strings.Split\<close>, \<^verbatim>\<open>strings.Join\<close> and \<^verbatim>\<open>strconv.Atoi\<close>\<close>

text \<open>
  \<^verbatim>\<open>strings.Split(s, sep)\<close> and \<^verbatim>\<open>strings.Join(elems, sep)\<close> for a separator of one
  byte (the program only uses \<^verbatim>\<open>"/"\<close>). Splitting a string with \<open>n\<close> separators
  gives \<open>n + 1\<close> pieces, empty ones included.
\<close>

fun Split_from :: "string \<Rightarrow> string \<Rightarrow> char \<Rightarrow> string list" where
  "Split_from cur [] sep = [cur]"
| "Split_from cur (c # cs) sep =
     (if c = sep then cur # Split_from [] cs sep else Split_from (cur @ [c]) cs sep)"

definition Split :: "string \<Rightarrow> char \<Rightarrow> string list" where
  "Split s sep = Split_from [] s sep"

fun Join :: "string list \<Rightarrow> char \<Rightarrow> string" where
  "Join [] sep = []"
| "Join [x] sep = x"
| "Join (x # y # rest) sep = x @ sep # Join (y # rest) sep"

definition is_digit :: "char \<Rightarrow> bool" where
  "is_digit c = (48 \<le> (of_char c :: nat) \<and> (of_char c :: nat) \<le> 57)"

definition digit_value :: "char \<Rightarrow> int" where
  "digit_value c = int (of_char c) - 48"

text \<open>
  The digit loop of \<^verbatim>\<open>strconv.ParseUint(s, 10, 64)\<close>: a byte that is no digit is a
  syntax error, a value past \<open>2 ^ 64 - 1\<close> a range error, whichever comes first.
\<close>

fun ParseUint_loop :: "string \<Rightarrow> int \<Rightarrow> num_err + int" where
  "ParseUint_loop [] n = Inr n"
| "ParseUint_loop (c # cs) n =
     (if \<not> is_digit c then Inl ErrSyntax
      else if n \<ge> (2 ^ 64 - 1) div 10 + 1 then Inl ErrRange
      else if n * 10 + digit_value c > 2 ^ 64 - 1 then Inl ErrRange
      else ParseUint_loop cs (n * 10 + digit_value c))"

text \<open>
  \<^verbatim>\<open>strconv.Atoi\<close> where \<^verbatim>\<open>int\<close> has 64 bits: an optional sign, then decimal digits
  only, and a value from \<open>- 2 ^ 63\<close> to \<open>2 ^ 63 - 1\<close>.
\<close>

definition Atoi :: "string \<Rightarrow> error + int" where
  "Atoi s =
     (if s = [] then Inl (NumError s ErrSyntax)
      else
        (let neg = (hd s = CHR ''-'');
             body = (if hd s = CHR ''+'' \<or> hd s = CHR ''-'' then tl s else s)
         in if body = [] then Inl (NumError s ErrSyntax)
            else
              (case ParseUint_loop body 0 of
                 Inl e \<Rightarrow> Inl (NumError s e)
               | Inr un \<Rightarrow>
                   if \<not> neg \<and> un \<ge> 2 ^ 63 then Inl (NumError s ErrRange)
                   else if neg \<and> un > 2 ^ 63 then Inl (NumError s ErrRange)
                   else Inr (if neg then - un else un))))"

subsection \<open>The process\<close>

text \<open>
  What the process writes: a line of text, an error printed with \<^verbatim>\<open>Fprintln\<close>, a
  line \<^verbatim>\<open>[index] path\<close> of the list command, and the two fixed texts of the help and
  install commands.
\<close>

datatype printed =
    Println string
  | Println_error error
  | Printf_entry nat string
  | help_text
  | install_text

text \<open>
  The state of one invocation: the backing file, what \<^verbatim>\<open>os.Getwd\<close> and
  \<^verbatim>\<open>os.UserHomeDir\<close> answer, and the two output streams.
\<close>

record proc =
  db :: fs
  Getwd :: "error + string"
  UserHomeDir :: "error + string"
  stdout :: "printed list"
  stderr :: "printed list"

text \<open>
  A handler returns to \<^verbatim>\<open>main\<close>, or ends the process through \<^verbatim>\<open>os.Exit\<close>;
  \<^verbatim>\<open>main\<close> itself can also end in a Go panic.
\<close>

datatype outcome = Return proc | os_Exit int proc | Panic

definition exit_code :: "outcome \<Rightarrow> int" where
  "exit_code r = (case r of Return p \<Rightarrow> 0 | os_Exit c p \<Rightarrow> c | Panic \<Rightarrow> 2)"

definition and_then :: "outcome \<Rightarrow> (proc \<Rightarrow> outcome) \<Rightarrow> outcome" where
  "and_then r f = (case r of Return p \<Rightarrow> f p | os_Exit c p \<Rightarrow> os_Exit c p | Panic \<Rightarrow> Panic)"

definition print_out :: "printed \<Rightarrow> proc \<Rightarrow> proc" where
  "print_out x p = p\<lparr>stdout := stdout p @ [x]\<rparr>"

definition print_err :: "printed \<Rightarrow> proc \<Rightarrow> proc" where
  "print_err x p = p\<lparr>stderr := stderr p @ [x]\<rparr>"

definition handleError :: "error option \<Rightarrow> proc \<Rightarrow> outcome" where
  "handleError err p =
     (case err of
        Some e \<Rightarrow> os_Exit 1 (print_err (Println_error e) p)
      | None \<Rightarrow> Return p)"

subsection \<open>\<^verbatim>\<open>MarkCli\<close>\<close>

definition MarkCli_DisplayHelp :: "string list \<Rightarrow> proc \<Rightarrow> outcome" where
  "MarkCli_DisplayHelp args p = Return (print_out help_text p)"

definition MarkCli_Back :: "string list \<Rightarrow> proc \<Rightarrow> outcome" where
  "MarkCli_Back args p =
     (case Getwd p of
        Inl err \<Rightarrow> handleError (Some err) p
      | Inr cwd \<Rightarrow>
          if length args \<noteq> 1 then handleError (Some (errors_New ''invalid number of args'')) p
          else
            (case Atoi (args ! 0) of
               Inl err \<Rightarrow> handleError (Some err) p
             | Inr index \<Rightarrow>
                 (let arr = Split cwd (CHR ''/'') in
                  if index < 0 then handleError (Some (errors_New ''invalid index'')) p
                  else
                    (let directoriesBack = int (length arr) - index in
                     if directoriesBack = 1 then Return (print_out (Println ''/'') p)
                     else if directoriesBack \<le> 0
                       then handleError (Some (errors_New ''invalid index'')) p
                     else Return (print_out
                            (Println (Join (take (nat directoriesBack) arr) (CHR ''/''))) p)))))"

fun print_paths :: "nat \<Rightarrow> string list \<Rightarrow> proc \<Rightarrow> proc" where
  "print_paths index [] p = p"
| "print_paths index (path # rest) p =
     print_paths (index + 1) rest (print_out (Printf_entry index path) p)"

definition MarkCli_List :: "string list \<Rightarrow> proc \<Rightarrow> outcome" where
  "MarkCli_List args p =
     (if length args \<noteq> 0
      then handleError (Some (errors_New ''invalid number of arguments'')) p
      else
        (case LocalMarkDB_List (db p) of
           (Inl err, s) \<Rightarrow> handleError (Some err) (p\<lparr>db := s\<rparr>)
         | (Inr paths, s) \<Rightarrow> Return (print_paths 0 paths (p\<lparr>db := s\<rparr>))))"

text \<open>
  The loop of the add command once the path is known to be stored: every other item
  is handed to \<^verbatim>\<open>Add\<close>, and here the result is checked.
\<close>

fun Add_loop :: "string \<Rightarrow> string list \<Rightarrow> proc \<Rightarrow> outcome" where
  "Add_loop path [] p = Return p"
| "Add_loop path (item # rest) p =
     (if item = path then Add_loop path rest p
      else
        (case LocalMarkDB_Add item (db p) of
           (err, s) \<Rightarrow> and_then (handleError err (p\<lparr>db := s\<rparr>)) (Add_loop path rest)))"

definition MarkCli_Add :: "string list \<Rightarrow> proc \<Rightarrow> outcome" where
  "MarkCli_Add args p =
     (if length args \<noteq> 0
      then handleError (Some (errors_New ''invalid number of arguments'')) p
      else
        (case Getwd p of
           Inl err \<Rightarrow> handleError (Some err) p
         | Inr path \<Rightarrow>
             (case LocalMarkDB_List (db p) of
                (Inl err, s) \<Rightarrow> handleError (Some err) (p\<lparr>db := s\<rparr>)
              | (Inr paths, s) \<Rightarrow>
                  if path \<notin> set paths then
                    (case LocalMarkDB_Add path s of
                       (Some err, s1) \<Rightarrow>
                         handleError (Some (errors_New ''invalid number of arguments''))
                           (p\<lparr>db := s1\<rparr>)
                     | (None, s1) \<Rightarrow> Return (p\<lparr>db := s1\<rparr>))
                  else
                    (let p1 = print_out (Println ''path already exists. Moving to top.'')
                                (p\<lparr>db := s\<rparr>);
                         s2 = snd (LocalMarkDB_Clear (db p1));
                         s3 = snd (LocalMarkDB_Add path s2)
                     in Add_loop path paths (p1\<lparr>db := s3\<rparr>)))))"

definition MarkCli_Get :: "string list \<Rightarrow> proc \<Rightarrow> outcome" where
  "MarkCli_Get args p =
     (if length args > 1
      then handleError (Some (errors_New ''invalid number of arguments'')) p
      else
        (case (if length args = 1 then Atoi (args ! 0) else Inr 0) of
           Inl err \<Rightarrow> handleError (Some (errors_New ''index is not a number'')) p
         | Inr index \<Rightarrow>
             (case LocalMarkDB_Get index (db p) of
                (Inl err, s) \<Rightarrow> handleError (Some err) (p\<lparr>db := s\<rparr>)
              | (Inr path, s) \<Rightarrow> Return (print_out (Println path) (p\<lparr>db := s\<rparr>)))))"

definition MarkCli_Install :: "string list \<Rightarrow> proc \<Rightarrow> outcome" where
  "MarkCli_Install args p = Return (print_out install_text p)"

definition MarkCli_Clear :: "string list \<Rightarrow> proc \<Rightarrow> outcome" where
  "MarkCli_Clear args p =
     (case LocalMarkDB_Clear (db p) of
        (err, s) \<Rightarrow> handleError err (p\<lparr>db := s\<rparr>))"

definition MarkCli_Delete :: "string list \<Rightarrow> proc \<Rightarrow> outcome" where
  "MarkCli_Delete args p =
     (if length args \<noteq> 1 then handleError (Some (errors_New ''specify index'')) p
      else
        (case Atoi (args ! 0) of
           Inl err \<Rightarrow> handleError (Some err) p
         | Inr index \<Rightarrow>
             (case LocalMarkDB_Delete index (db p) of
                (err, s) \<Rightarrow> handleError err (p\<lparr>db := s\<rparr>))))"

subsection \<open>\<^verbatim>\<open>main\<close>\<close>

definition commands :: "string \<Rightarrow> (string list \<Rightarrow> proc \<Rightarrow> outcome) option" where
  "commands =
     map_of
       [(''add'', MarkCli_Add),
        (''back'', MarkCli_Back),
        (''clear'', MarkCli_Clear),
        (''delete'', MarkCli_Delete),
        (''get'', MarkCli_Get),
        (''help'', MarkCli_DisplayHelp),
        (''install'', MarkCli_Install),
        (''list'', MarkCli_List)]"

text \<open>
  \<open>args\<close> is \<^verbatim>\<open>os.Args\<close>, the program's name first. \<^verbatim>\<open>main\<close> panics when the home
  directory is unknown (the store cannot be located) and when \<^verbatim>\<open>os.Args\<close> is empty
  (\<^verbatim>\<open>args[1]\<close> is out of range).
\<close>

definition main :: "string list \<Rightarrow> proc \<Rightarrow> outcome" where
  "main Args p =
     (case UserHomeDir p of
        Inl err \<Rightarrow> Panic
      | Inr homeDir \<Rightarrow>
          (let args = (if length Args = 1 then Args @ [''add''] else Args) in
           if length args < 2 then Panic
           else
             (case commands (args ! 1) of
                Some command \<Rightarrow> command (drop 2 args) p
              | None \<Rightarrow>
                  MarkCli_DisplayHelp (drop 2 args)
                    (print_err (Println ''invalid option. displaying help.'') p))))"

section \<open>Vocabulary of the statements\<close>

text \<open>
  What the write loop of \<^verbatim>\<open>Add\<close> puts into the file for a list of paths: each path
  followed by a newline.
\<close>

definition lines_of :: "string list \<Rightarrow> string" where
  "lines_of ps = concat (map (\<lambda>p. p @ [CHR 0x0A]) ps)"

text \<open>
  A path that survives being written as a line and scanned back: it holds no
  newline, it fits the scanner's buffer, and it does not end in a carriage return.
\<close>

definition line_ok :: "string \<Rightarrow> bool" where
  "line_ok p = (CHR 0x0A \<notin> set p \<and> length p < MaxScanTokenSize \<and> dropCR p = p)"

text \<open>
  The list the file holds (what \<^verbatim>\<open>List\<close> returns when the file can be opened), and
  the stores none of whose entries ends in a carriage return.
\<close>

definition stored :: "fs \<Rightarrow> string list" where
  "stored s = Scan [] (contents s)"

definition stored_ok :: "fs \<Rightarrow> bool" where
  "stored_ok s = list_all (\<lambda>l. dropCR l = l) (stored s)"

text \<open>A sequence of calls of \<^verbatim>\<open>Add\<close>, first path first, with the result of each.\<close>

fun Add_all :: "string list \<Rightarrow> fs \<Rightarrow> error option list \<times> fs" where
  "Add_all [] s = ([], s)"
| "Add_all (p # ps) s =
     (case LocalMarkDB_Add p s of
        (err, s') \<Rightarrow> (case Add_all ps s' of (errs, s'') \<Rightarrow> (err # errs, s'')))"



section \<open>Properties of the store\<close>

lemma Scan_line:
  "CHR 0x0A \<notin> set p \<Longrightarrow>
   Scan cur (p @ CHR 0x0A # rest) =
     (if length (cur @ p) < MaxScanTokenSize then dropCR (cur @ p) # Scan [] rest else [])"
  by (induction p arbitrary: cur) auto

lemma next_fault_none: "faults s = [] \<Longrightarrow> next_fault s = (None, s)"
  by (simp add: next_fault_def)

lemma List_no_fault:
  "faults s = [] \<Longrightarrow>
   LocalMarkDB_List s = (Inr (stored s), s\<lparr>markfile := Some (contents s)\<rparr>)"
  by (cases "markfile s")
    (simp_all add: LocalMarkDB_List_def OpenFile_def next_fault_none contents_def stored_def)

lemma Clear_no_fault:
  "faults s = [] \<Longrightarrow> markfile s = Some c \<Longrightarrow>
   LocalMarkDB_Clear s = (None, s\<lparr>markfile := Some []\<rparr>)"
  by (simp add: LocalMarkDB_Clear_def Truncate_def next_fault_none)

lemma write_paths_no_fault:
  "faults s = [] \<Longrightarrow> markfile s = Some c \<Longrightarrow>
   write_paths ps err s =
     ((if ps = [] then err else None), s\<lparr>markfile := Some (c @ lines_of ps)\<rparr>)"
proof (induction ps arbitrary: s c err)
  case Nil
  then show ?case by (simp add: lines_of_def)
next
  case (Cons p ps)
  have w: "WriteString (p @ [CHR 0x0A]) s = (None, s\<lparr>markfile := Some (c @ p @ [CHR 0x0A])\<rparr>)"
    using Cons.prems by (simp add: WriteString_def next_fault_none contents_def)
  show ?case
    using Cons.prems Cons.IH [of "s\<lparr>markfile := Some (c @ p @ [CHR 0x0A])\<rparr>" "c @ p @ [CHR 0x0A]" None]
    by (simp add: w lines_of_def)
qed

lemma Add_no_fault:
  "faults s = [] \<Longrightarrow>
   LocalMarkDB_Add p s = (None, s\<lparr>markfile := Some (lines_of (p # stored s))\<rparr>)"
proof -
  assume nf: "faults s = []"
  let ?s1 = "s\<lparr>markfile := Some (contents s)\<rparr>"
  let ?s2 = "s\<lparr>markfile := Some []\<rparr>"
  have l: "LocalMarkDB_List s = (Inr (stored s), ?s1)"
    using nf by (rule List_no_fault)
  have c: "LocalMarkDB_Clear ?s1 = (None, ?s2)"
    using nf Clear_no_fault [of ?s1 "contents s"] by simp
  have ope: "OpenFile [O_APPEND, O_WRONLY, O_CREATE] ?s2 = (None, ?s2)"
    using nf by (simp add: OpenFile_def next_fault_none)
  have w: "write_paths (p # stored s) None ?s2 =
             (None, ?s2\<lparr>markfile := Some ([] @ lines_of (p # stored s))\<rparr>)"
    using nf write_paths_no_fault [of ?s2 "[]" "p # stored s" None] by simp
  show ?thesis
    unfolding LocalMarkDB_Add_def l using c ope w by (simp add: Let_def)
qed

lemma Scan_lines_of:
  "list_all line_ok ps \<Longrightarrow> Scan [] (lines_of ps) = ps"
proof (induction ps)
  case Nil
  then show ?case by (simp add: lines_of_def)
next
  case (Cons p ps)
  then have "CHR 0x0A \<notin> set p" "length p < MaxScanTokenSize" "dropCR p = p"
    by (simp_all add: line_ok_def)
  moreover have "lines_of (p # ps) = p @ CHR 0x0A # lines_of ps"
    by (simp add: lines_of_def)
  ultimately show ?case
    using Cons by (simp add: Scan_line)
qed

lemma Scan_sound:
  "CHR 0x0A \<notin> set cur \<Longrightarrow> l \<in> set (Scan cur c) \<Longrightarrow>
   CHR 0x0A \<notin> set l \<and> length l < MaxScanTokenSize"
proof (induction cur c rule: Scan.induct)
  case (1 cur)
  then show ?case
    by (auto simp: dropCR_def split: if_splits dest: in_set_butlastD)
next
  case (2 cur c cs)
  then show ?case
    by (auto simp: dropCR_def split: if_splits dest: in_set_butlastD)
qed

lemma stored_line_ok: "stored_ok s \<Longrightarrow> list_all line_ok (stored s)"
  unfolding stored_ok_def stored_def line_ok_def list_all_iff
  using Scan_sound [of "[]" _ "contents s"] by auto

text \<open>One call of \<^verbatim>\<open>Add\<close> without a fault, on a store that is \<open>stored_ok\<close>.\<close>

lemma Add_stored:
  assumes "faults s = []" "stored_ok s" "line_ok p"
  shows "fst (LocalMarkDB_Add p s) = None"
    and "faults (snd (LocalMarkDB_Add p s)) = []"
    and "stored (snd (LocalMarkDB_Add p s)) = p # stored s"
    and "stored_ok (snd (LocalMarkDB_Add p s))"
proof -
  have ok: "list_all line_ok (p # stored s)"
    using assms stored_line_ok by simp
  have st: "stored (snd (LocalMarkDB_Add p s)) = p # stored s"
    using Scan_lines_of [OF ok] assms(1) by (simp add: Add_no_fault stored_def contents_def)
  show "fst (LocalMarkDB_Add p s) = None" "faults (snd (LocalMarkDB_Add p s)) = []"
    using assms(1) by (simp_all add: Add_no_fault)
  show "stored (snd (LocalMarkDB_Add p s)) = p # stored s" by (rule st)
  show "stored_ok (snd (LocalMarkDB_Add p s))"
    using ok unfolding stored_ok_def st by (simp add: line_ok_def list_all_iff)
qed

lemma Add_all_stored:
  "faults s = [] \<Longrightarrow> stored_ok s \<Longrightarrow> list_all line_ok ps \<Longrightarrow>
   fst (Add_all ps s) = replicate (length ps) None \<and>
   faults (snd (Add_all ps s)) = [] \<and>
   stored (snd (Add_all ps s)) = rev ps @ stored s \<and>
   stored_ok (snd (Add_all ps s))"
proof (induction ps arbitrary: s)
  case Nil
  then show ?case by simp
next
  case (Cons p ps)
  obtain err s' where a: "LocalMarkDB_Add p s = (err, s')" by (cases "LocalMarkDB_Add p s")
  have p: "line_ok p" "list_all line_ok ps" using Cons.prems by simp_all
  have s': "err = None" "faults s' = []" "stored s' = p # stored s" "stored_ok s'"
    using Add_stored [OF Cons.prems(1,2) p(1)] a by simp_all
  show ?case
    using Cons.IH [OF s'(2) s'(4) p(2)] s' a by (auto split: prod.splits)
qed

subsection \<open>C4: \<^verbatim>\<open>Add\<close> puts the path in front\<close>

text \<open>
  C4, as amended. For every store none of whose entries ends in a carriage return, and
  every path \<open>p\<close> that is \<open>line_ok\<close> (no newline, shorter than the scanner's buffer, no
  carriage return at the end), when no system call fails: \<^verbatim>\<open>Add(p)\<close> returns no error
  and \<^verbatim>\<open>List()\<close> then returns \<open>p\<close> followed by the previous list in its previous order;
  and after the paths \<open>ps\<close>, all \<open>line_ok\<close>, have been added one after the other, every
  call has returned no error and \<^verbatim>\<open>List()\<close> returns them most recent first, followed by
  the previous list.
\<close>

theorem Add_then_List:
  assumes "faults s = []" and "stored_ok s" and "line_ok p" and "list_all line_ok ps"
    and "fst (LocalMarkDB_List s) = Inr prev"
  shows "fst (LocalMarkDB_Add p s) = None \<and>
         fst (LocalMarkDB_List (snd (LocalMarkDB_Add p s))) = Inr (p # prev) \<and>
         fst (Add_all ps s) = replicate (length ps) None \<and>
         fst (LocalMarkDB_List (snd (Add_all ps s))) = Inr (rev ps @ prev)"
proof -
  have prev: "prev = stored s"
    using assms(1,5) by (simp add: List_no_fault)
  have one: "fst (LocalMarkDB_List (snd (LocalMarkDB_Add p s))) = Inr (p # prev)"
    using Add_stored(2,3) [OF assms(1-3)] by (simp add: List_no_fault prev)
  have many: "fst (LocalMarkDB_List (snd (Add_all ps s))) = Inr (rev ps @ prev)"
    using Add_all_stored [OF assms(1,2,4)] by (simp add: List_no_fault prev)
  show ?thesis
    using Add_stored(1) [OF assms(1-3)] one many Add_all_stored [OF assms(1,2,4)] by simp
qed

text \<open>The theorem at a store that holds \<^verbatim>\<open>/w\<close>, adding \<^verbatim>\<open>/x\<close> and then \<^verbatim>\<open>/y\<close>.\<close>

theorem Add_then_List_witness:
  "faults \<lparr>markfile = Some ''/w\<newline>'', faults = []\<rparr> = [] \<and>
   stored_ok \<lparr>markfile = Some ''/w\<newline>'', faults = []\<rparr> \<and>
   line_ok ''/x'' \<and> list_all line_ok [''/x'', ''/y''] \<and>
   fst (LocalMarkDB_List \<lparr>markfile = Some ''/w\<newline>'', faults = []\<rparr>) = Inr [''/w''] \<and>
   fst (LocalMarkDB_List (snd (LocalMarkDB_Add ''/x''
     \<lparr>markfile = Some ''/w\<newline>'', faults = []\<rparr>))) = Inr [''/x'', ''/w''] \<and>
   fst (LocalMarkDB_List (snd (Add_all [''/x'', ''/y'']
     \<lparr>markfile = Some ''/w\<newline>'', faults = []\<rparr>))) = Inr [''/y'', ''/x'', ''/w'']"
proof -
  let ?s = "\<lparr>markfile = Some ''/w\<newline>'', faults = []\<rparr>"
  have h1: "faults ?s = []" by simp
  have h2: "stored_ok ?s"
    by (simp add: stored_ok_def stored_def contents_def dropCR_def MaxScanTokenSize_def)
  have h3: "line_ok ''/x''" by (simp add: line_ok_def dropCR_def MaxScanTokenSize_def)
  have h4: "list_all line_ok [''/x'', ''/y'']"
    by (simp add: line_ok_def dropCR_def MaxScanTokenSize_def)
  have h5: "fst (LocalMarkDB_List ?s) = Inr [''/w'']"
    by (simp add: LocalMarkDB_List_def OpenFile_def next_fault_def contents_def dropCR_def
        MaxScanTokenSize_def)
  show ?thesis
    using h1 h2 h3 h4 h5 Add_then_List [OF h1 h2 h3 h4 h5] by simp
qed

text \<open>
  C4 as stated fails for a path that holds a newline: \<^verbatim>\<open>Add\<close> writes it as it is, and
  the scanner reads it back as two entries.
\<close>

theorem Add_newline_counterexample:
  "fst (LocalMarkDB_List \<lparr>markfile = Some [], faults = []\<rparr>) = Inr [] \<and>
   fst (LocalMarkDB_Add ''/a\<newline>b'' \<lparr>markfile = Some [], faults = []\<rparr>) = None \<and>
   fst (LocalMarkDB_List (snd (LocalMarkDB_Add ''/a\<newline>b''
     \<lparr>markfile = Some [], faults = []\<rparr>))) = Inr [''/a'', ''b''] \<and>
   fst (LocalMarkDB_List (snd (LocalMarkDB_Add ''/a\<newline>b''
     \<lparr>markfile = Some [], faults = []\<rparr>))) \<noteq> Inr (''/a\<newline>b'' # [])"
  by (simp add: LocalMarkDB_Add_def LocalMarkDB_List_def LocalMarkDB_Clear_def Truncate_def
      OpenFile_def WriteString_def next_fault_def contents_def dropCR_def MaxScanTokenSize_def)

subsection \<open>C5: the index bounds of \<^verbatim>\<open>Get\<close> and \<^verbatim>\<open>Delete\<close>\<close>

text \<open>
  C5. For every store state whose list \<^verbatim>\<open>List()\<close> reads as \<open>paths\<close>, of length \<open>n\<close>, and
  every integer \<open>i\<close>: \<^verbatim>\<open>Get(i)\<close> and \<^verbatim>\<open>Delete(i)\<close> fail with the error
  \<^verbatim>\<open>invalid index\<close> exactly when \<open>i < 0\<close> or \<open>i \<ge> n\<close>; otherwise \<^verbatim>\<open>Get(i)\<close> returns the
  path at the zero-based position \<open>i\<close> and \<^verbatim>\<open>Delete(i)\<close> returns no error.
\<close>

theorem Get_Delete_invalid_index:
  assumes "LocalMarkDB_List s = (Inr paths, s')"
  shows "(fst (LocalMarkDB_Get i s) = Inl (errors_New ''invalid index'')
            \<longleftrightarrow> i < 0 \<or> i \<ge> int (length paths)) \<and>
         (fst (LocalMarkDB_Delete i s) = Some (errors_New ''invalid index'')
            \<longleftrightarrow> i < 0 \<or> i \<ge> int (length paths)) \<and>
         (0 \<le> i \<and> i < int (length paths) \<longrightarrow>
            fst (LocalMarkDB_Get i s) = Inr (paths ! nat i) \<and>
            fst (LocalMarkDB_Delete i s) = None)"
  using assms by (auto simp: LocalMarkDB_Get_def LocalMarkDB_Delete_def)

text \<open>The theorem at the store \<^verbatim>\<open>[/y, /x]\<close>, for the indices 1, 2 and -1.\<close>

theorem Get_Delete_invalid_index_witness:
  "LocalMarkDB_List \<lparr>markfile = Some ''/y\<newline>/x\<newline>'', faults = []\<rparr> =
     (Inr [''/y'', ''/x''], \<lparr>markfile = Some ''/y\<newline>/x\<newline>'', faults = []\<rparr>) \<and>
   fst (LocalMarkDB_Get 1 \<lparr>markfile = Some ''/y\<newline>/x\<newline>'', faults = []\<rparr>) = Inr ''/x'' \<and>
   fst (LocalMarkDB_Delete 1 \<lparr>markfile = Some ''/y\<newline>/x\<newline>'', faults = []\<rparr>) = None \<and>
   fst (LocalMarkDB_Get 2 \<lparr>markfile = Some ''/y\<newline>/x\<newline>'', faults = []\<rparr>) =
     Inl (errors_New ''invalid index'') \<and>
   fst (LocalMarkDB_Delete 2 \<lparr>markfile = Some ''/y\<newline>/x\<newline>'', faults = []\<rparr>) =
     Some (errors_New ''invalid index'') \<and>
   fst (LocalMarkDB_Get (- 1) \<lparr>markfile = Some ''/y\<newline>/x\<newline>'', faults = []\<rparr>) =
     Inl (errors_New ''invalid index'') \<and>
   fst (LocalMarkDB_Delete (- 1) \<lparr>markfile = Some ''/y\<newline>/x\<newline>'', faults = []\<rparr>) =
     Some (errors_New ''invalid index'')"
proof -
  let ?s = "\<lparr>markfile = Some ''/y\<newline>/x\<newline>'', faults = []\<rparr>"
  have l: "LocalMarkDB_List ?s = (Inr [''/y'', ''/x''], ?s)"
    by (simp add: LocalMarkDB_List_def OpenFile_def next_fault_def contents_def dropCR_def
        MaxScanTokenSize_def)
  show ?thesis
    using l Get_Delete_invalid_index [OF l, of 1] Get_Delete_invalid_index [OF l, of 2]
      Get_Delete_invalid_index [OF l, of "- 1"]
    by simp
qed

subsection \<open>C9: \<^verbatim>\<open>Delete\<close> drops the errors of its re-persist loop\<close>

text \<open>
  C9. \<^verbatim>\<open>Delete(i)\<close> on a valid index returns no error whatever the system calls after
  the first \<^verbatim>\<open>List\<close> do: the results of the inner \<^verbatim>\<open>Clear\<close> and \<^verbatim>\<open>Add\<close> calls are
  dropped. So a failure in the loop can leave the store partly rewritten while
  \<^verbatim>\<open>Delete\<close> reports success: deleting index 0 of \<^verbatim>\<open>[a, b, c]\<close>, with the seventh system
  call (the open of the second \<^verbatim>\<open>Add\<close>) failing, returns no error and leaves \<^verbatim>\<open>[b]\<close>.
\<close>

theorem Delete_discards_errors:
  "(\<forall>s paths s' i.
      LocalMarkDB_List s = (Inr paths, s') \<and> 0 \<le> i \<and> i < int (length paths) \<longrightarrow>
      fst (LocalMarkDB_Delete i s) = None) \<and>
   LocalMarkDB_Delete 0
     \<lparr>markfile = Some ''a\<newline>b\<newline>c\<newline>'',
      faults = [None, None, None, None, None, None, Some EIO]\<rparr> =
     (None, \<lparr>markfile = Some ''b\<newline>'', faults = []\<rparr>)"
proof -
  have "LocalMarkDB_Delete 0
     \<lparr>markfile = Some ''a\<newline>b\<newline>c\<newline>'',
      faults = [None, None, None, None, None, None, Some EIO]\<rparr> =
     (None, \<lparr>markfile = Some ''b\<newline>'', faults = []\<rparr>)"
    by (simp add: LocalMarkDB_Delete_def LocalMarkDB_Add_def LocalMarkDB_List_def
        LocalMarkDB_Clear_def Truncate_def OpenFile_def WriteString_def next_fault_def
        contents_def dropCR_def MaxScanTokenSize_def)
  then show ?thesis
    by (auto simp: LocalMarkDB_Delete_def)
qed

text \<open>
  The theorem at a file that can be read but not written (every truncate and every open
  for writing fails): \<^verbatim>\<open>Clear\<close> fails, \<^verbatim>\<open>Delete(0)\<close> returns no error, and nothing was
  deleted.
\<close>

theorem Delete_discards_errors_witness:
  "LocalMarkDB_List
     \<lparr>markfile = Some ''a\<newline>b\<newline>c\<newline>'',
      faults = [None, Some EACCES, None, Some EACCES, Some EACCES,
                None, Some EACCES, Some EACCES]\<rparr> =
     (Inr [''a'', ''b'', ''c''],
      \<lparr>markfile = Some ''a\<newline>b\<newline>c\<newline>'',
       faults = [Some EACCES, None, Some EACCES, Some EACCES,
                 None, Some EACCES, Some EACCES]\<rparr>) \<and>
   fst (LocalMarkDB_Clear
     \<lparr>markfile = Some ''a\<newline>b\<newline>c\<newline>'',
       faults = [Some EACCES, None, Some EACCES, Some EACCES,
                 None, Some EACCES, Some EACCES]\<rparr>) = Some (PathError ''truncate'' EACCES) \<and>
   fst (LocalMarkDB_Delete 0
     \<lparr>markfile = Some ''a\<newline>b\<newline>c\<newline>'',
      faults = [None, Some EACCES, None, Some EACCES, Some EACCES,
                None, Some EACCES, Some EACCES]\<rparr>) = None \<and>
   snd (LocalMarkDB_Delete 0
     \<lparr>markfile = Some ''a\<newline>b\<newline>c\<newline>'',
      faults = [None, Some EACCES, None, Some EACCES, Some EACCES,
                None, Some EACCES, Some EACCES]\<rparr>) =
     \<lparr>markfile = Some ''a\<newline>b\<newline>c\<newline>'', faults = []\<rparr>"
proof -
  let ?s = "\<lparr>markfile = Some ''a\<newline>b\<newline>c\<newline>'',
      faults = [None, Some EACCES, None, Some EACCES, Some EACCES,
                None, Some EACCES, Some EACCES]\<rparr>"
  let ?s' = "\<lparr>markfile = Some ''a\<newline>b\<newline>c\<newline>'',
       faults = [Some EACCES, None, Some EACCES, Some EACCES,
                 None, Some EACCES, Some EACCES]\<rparr>"
  have l: "LocalMarkDB_List ?s = (Inr [''a'', ''b'', ''c''], ?s')"
    by (simp add: LocalMarkDB_List_def OpenFile_def next_fault_def contents_def dropCR_def
        MaxScanTokenSize_def)
  have c: "fst (LocalMarkDB_Clear ?s') = Some (PathError ''truncate'' EACCES)"
    by (simp add: LocalMarkDB_Clear_def Truncate_def next_fault_def)
  have d: "snd (LocalMarkDB_Delete 0 ?s) =
             \<lparr>markfile = Some ''a\<newline>b\<newline>c\<newline>'', faults = []\<rparr>"
    by (simp add: LocalMarkDB_Delete_def LocalMarkDB_Add_def LocalMarkDB_List_def
        LocalMarkDB_Clear_def Truncate_def OpenFile_def WriteString_def next_fault_def
        contents_def dropCR_def MaxScanTokenSize_def)
  have "fst (LocalMarkDB_Delete 0 ?s) = None"
    using Delete_discards_errors [THEN conjunct1, rule_format, of ?s "[''a'', ''b'', ''c'']" ?s' 0] l
    by simp
  then show ?thesis
    using l c d by simp
qed

section \<open>Properties of the command line\<close>

lemma handleError_Some: "handleError (Some e) p = os_Exit 1 (print_err (Println_error e) p)"
  by (simp add: handleError_def)

lemma commands_simps:
  "commands ''add'' = Some MarkCli_Add"
  "commands ''back'' = Some MarkCli_Back"
  "commands ''clear'' = Some MarkCli_Clear"
  "commands ''delete'' = Some MarkCli_Delete"
  "commands ''get'' = Some MarkCli_Get"
  "commands ''help'' = Some MarkCli_DisplayHelp"
  "commands ''install'' = Some MarkCli_Install"
  "commands ''list'' = Some MarkCli_List"
  by (simp_all add: commands_def)

lemma main_known:
  "UserHomeDir p = Inr h \<Longrightarrow> commands tok = Some command \<Longrightarrow>
   main (prog # tok # rest) p = command rest p"
  by (simp add: main_def)

subsection \<open>C10: \<^verbatim>\<open>Clear\<close> on a file that does not exist\<close>

text \<open>
  C10. When the backing file does not exist, \<^verbatim>\<open>Clear()\<close> fails and does not create it
  (with the error of the truncate call when nothing else fails), and the clear command
  prints that error and ends with exit code 1; \<^verbatim>\<open>List()\<close> and \<^verbatim>\<open>Add(path)\<close> on the same
  state create the file and succeed.
\<close>

theorem Clear_missing_file:
  assumes "markfile s = None"
  shows "fst (LocalMarkDB_Clear s) \<noteq> None \<and>
         markfile (snd (LocalMarkDB_Clear s)) = None \<and>
         (faults s = [] \<longrightarrow>
            LocalMarkDB_Clear s = (Some (PathError ''truncate'' ENOENT), s) \<and>
            LocalMarkDB_List s = (Inr [], s\<lparr>markfile := Some []\<rparr>) \<and>
            LocalMarkDB_Add path s = (None, s\<lparr>markfile := Some (path @ [CHR 0x0A])\<rparr>)) \<and>
         (\<forall>p h prog. db p = s \<and> UserHomeDir p = Inr h \<longrightarrow>
            exit_code (main [prog, ''clear''] p) = 1 \<and>
            (\<exists>e q. main [prog, ''clear''] p = os_Exit 1 (print_err (Println_error e) q)))"
proof -
  have c: "fst (LocalMarkDB_Clear s) \<noteq> None" "markfile (snd (LocalMarkDB_Clear s)) = None"
    using assms
    by (auto simp: LocalMarkDB_Clear_def Truncate_def next_fault_def split: list.splits option.splits)
  have nf: "faults s = [] \<longrightarrow>
            LocalMarkDB_Clear s = (Some (PathError ''truncate'' ENOENT), s) \<and>
            LocalMarkDB_List s = (Inr [], s\<lparr>markfile := Some []\<rparr>) \<and>
            LocalMarkDB_Add path s = (None, s\<lparr>markfile := Some (path @ [CHR 0x0A])\<rparr>)"
    using assms
    by (simp add: LocalMarkDB_Clear_def Truncate_def next_fault_none List_no_fault Add_no_fault
        stored_def contents_def lines_of_def)
  have cli: "exit_code (main [prog, ''clear''] p) = 1 \<and>
            (\<exists>e q. main [prog, ''clear''] p = os_Exit 1 (print_err (Println_error e) q))"
    if "db p = s" "UserHomeDir p = Inr h" for p h prog
  proof -
    obtain e s' where "LocalMarkDB_Clear s = (Some e, s')"
      using c(1) by (cases "LocalMarkDB_Clear s") auto
    then have e: "LocalMarkDB_Clear (db p) = (Some e, s')"
      using that(1) by simp
    have "main [prog, ''clear''] p = os_Exit 1 (print_err (Println_error e) (p\<lparr>db := s'\<rparr>))"
      using that(2) by (simp add: main_known [OF that(2) commands_simps(3)] MarkCli_Clear_def e handleError_Some)
    then show ?thesis by (auto simp: exit_code_def)
  qed
  show ?thesis using c nf cli by blast
qed

text \<open>The theorem on a fresh system, where nothing fails but for the missing file.\<close>

theorem Clear_missing_file_witness:
  "markfile \<lparr>markfile = None, faults = []\<rparr> = None \<and>
   LocalMarkDB_Clear \<lparr>markfile = None, faults = []\<rparr> =
     (Some (PathError ''truncate'' ENOENT), \<lparr>markfile = None, faults = []\<rparr>) \<and>
   LocalMarkDB_List \<lparr>markfile = None, faults = []\<rparr> =
     (Inr [], \<lparr>markfile = Some [], faults = []\<rparr>) \<and>
   LocalMarkDB_Add ''/x'' \<lparr>markfile = None, faults = []\<rparr> =
     (None, \<lparr>markfile = Some ''/x\<newline>'', faults = []\<rparr>) \<and>
   exit_code (main [''mark'', ''clear'']
     \<lparr>db = \<lparr>markfile = None, faults = []\<rparr>, Getwd = Inr ''/x'',
      UserHomeDir = Inr ''/home/u'', stdout = [], stderr = []\<rparr>) = 1"
proof -
  let ?s = "\<lparr>markfile = None, faults = []\<rparr>"
  let ?p = "\<lparr>db = ?s, Getwd = Inr ''/x'', UserHomeDir = Inr ''/home/u'', stdout = [], stderr = []\<rparr>"
  have h: "markfile ?s = None" by simp
  have "exit_code (main [''mark'', ''clear''] ?p) = 1"
    using Clear_missing_file [OF h, of "''/x''"] by simp
  then show ?thesis
    using Clear_missing_file [OF h, of "''/x''"] by simp
qed

subsection \<open>C8: \<^verbatim>\<open>Clear\<close> on an empty store\<close>

text \<open>
  C8 says that \<^verbatim>\<open>Clear()\<close> on a store that is already empty succeeds. The store of a
  fresh system is empty (\<^verbatim>\<open>List()\<close> returns no entry and no error), and there
  \<^verbatim>\<open>Clear()\<close> fails, and the clear command ends with exit code 1: \<^verbatim>\<open>os.Truncate\<close> does not
  create the file, where \<^verbatim>\<open>List\<close> and \<^verbatim>\<open>Add\<close> open it with \<^verbatim>\<open>O_CREATE\<close>.
\<close>

theorem Clear_fresh_store:
  "LocalMarkDB_List \<lparr>markfile = None, faults = []\<rparr> =
     (Inr [], \<lparr>markfile = Some [], faults = []\<rparr>) \<and>
   LocalMarkDB_Clear \<lparr>markfile = None, faults = []\<rparr> =
     (Some (PathError ''truncate'' ENOENT), \<lparr>markfile = None, faults = []\<rparr>) \<and>
   main [''mark'', ''clear'']
     \<lparr>db = \<lparr>markfile = None, faults = []\<rparr>, Getwd = Inr ''/x'',
      UserHomeDir = Inr ''/home/u'', stdout = [], stderr = []\<rparr> =
   os_Exit 1
     \<lparr>db = \<lparr>markfile = None, faults = []\<rparr>, Getwd = Inr ''/x'',
      UserHomeDir = Inr ''/home/u'', stdout = [],
      stderr = [Println_error (PathError ''truncate'' ENOENT)]\<rparr>"
  by (simp add: LocalMarkDB_List_def LocalMarkDB_Clear_def Truncate_def OpenFile_def
      next_fault_def contents_def main_def commands_def MarkCli_Clear_def handleError_def
      print_err_def)

text \<open>
  The rest of C8 holds when no system call fails: after \<^verbatim>\<open>Clear()\<close>, \<^verbatim>\<open>List()\<close> returns
  the empty list from every state, and \<^verbatim>\<open>Clear()\<close> on an empty file that exists succeeds
  and changes nothing.
\<close>

lemma Clear_then_List:
  "faults s = [] \<Longrightarrow> fst (LocalMarkDB_List (snd (LocalMarkDB_Clear s))) = Inr []"
  by (cases "markfile s")
    (simp_all add: LocalMarkDB_Clear_def Truncate_def next_fault_none List_no_fault stored_def
      contents_def)

lemma Clear_empty_file:
  "faults s = [] \<Longrightarrow> markfile s = Some [] \<Longrightarrow> LocalMarkDB_Clear s = (None, s)"
  by (simp add: LocalMarkDB_Clear_def Truncate_def next_fault_none)

subsection \<open>C7: the get command without arguments\<close>

text \<open>
  C7. The get command with no arguments uses index 0: for every store whose list
  \<^verbatim>\<open>List()\<close> reads with \<open>front\<close> as its first entry, the handler, and \<^verbatim>\<open>main\<close> run as
  \<^verbatim>\<open>mark get\<close>, print \<open>front\<close> and return normally.
\<close>

theorem Get_without_arguments:
  assumes "LocalMarkDB_List (db p) = (Inr (front # rest), s')"
  shows "MarkCli_Get [] p = Return (print_out (Println front) (p\<lparr>db := s'\<rparr>)) \<and>
         (\<forall>h prog. UserHomeDir p = Inr h \<longrightarrow>
            main [prog, ''get''] p = Return (print_out (Println front) (p\<lparr>db := s'\<rparr>)))"
proof -
  have g: "MarkCli_Get [] p = Return (print_out (Println front) (p\<lparr>db := s'\<rparr>))"
    using assms by (simp add: MarkCli_Get_def LocalMarkDB_Get_def)
  show ?thesis
    using g main_known [OF _ commands_simps(5), of p _ _ "[]"] by simp
qed

text \<open>
  The theorem at the store of the specification's example: \<^verbatim>\<open>/x\<close> is added, then
  \<^verbatim>\<open>/y\<close>, and \<^verbatim>\<open>mark get\<close> prints \<^verbatim>\<open>/y\<close>.
\<close>

theorem Get_without_arguments_witness:
  "snd (Add_all [''/x'', ''/y''] \<lparr>markfile = None, faults = []\<rparr>) =
     \<lparr>markfile = Some ''/y\<newline>/x\<newline>'', faults = []\<rparr> \<and>
   LocalMarkDB_List \<lparr>markfile = Some ''/y\<newline>/x\<newline>'', faults = []\<rparr> =
     (Inr [''/y'', ''/x''], \<lparr>markfile = Some ''/y\<newline>/x\<newline>'', faults = []\<rparr>) \<and>
   main [''mark'', ''get'']
     \<lparr>db = \<lparr>markfile = Some ''/y\<newline>/x\<newline>'', faults = []\<rparr>, Getwd = Inr ''/'',
      UserHomeDir = Inr ''/home/u'', stdout = [], stderr = []\<rparr> =
   Return
     \<lparr>db = \<lparr>markfile = Some ''/y\<newline>/x\<newline>'', faults = []\<rparr>, Getwd = Inr ''/'',
      UserHomeDir = Inr ''/home/u'', stdout = [Println ''/y''], stderr = []\<rparr>"
proof -
  let ?s = "\<lparr>markfile = Some ''/y\<newline>/x\<newline>'', faults = []\<rparr>"
  let ?p = "\<lparr>db = ?s, Getwd = Inr ''/'', UserHomeDir = Inr ''/home/u'', stdout = [], stderr = []\<rparr>"
  have a: "snd (Add_all [''/x'', ''/y''] \<lparr>markfile = None, faults = []\<rparr>) = ?s"
    by (simp add: LocalMarkDB_Add_def LocalMarkDB_List_def LocalMarkDB_Clear_def Truncate_def
        OpenFile_def WriteString_def next_fault_def contents_def dropCR_def MaxScanTokenSize_def)
  have l: "LocalMarkDB_List ?s = (Inr [''/y'', ''/x''], ?s)"
    by (simp add: LocalMarkDB_List_def OpenFile_def next_fault_def contents_def dropCR_def
        MaxScanTokenSize_def)
  have l': "LocalMarkDB_List (db ?p) = (Inr (''/y'' # [''/x'']), ?s)"
    using l by simp
  show ?thesis
    using a l Get_without_arguments [OF l'] by (simp add: print_out_def)
qed

subsection \<open>C3: the back command\<close>

lemma Atoi_examples:
  "Atoi ''0'' = Inr 0" "Atoi ''1'' = Inr 1" "Atoi ''3'' = Inr 3" "Atoi ''4'' = Inr 4"
  "Atoi ''5'' = Inr 5" "Atoi ''-1'' = Inr (- 1)"
  by (simp_all add: Atoi_def is_digit_def digit_value_def)

lemma Split_abcd: "Split ''/a/b/c/d'' (CHR ''/'') = [[], ''a'', ''b'', ''c'', ''d'']"
  by (simp add: Split_def)

lemma Back_general:
  assumes "Getwd p = Inr cwd" and "Atoi a = Inr index"
  shows "MarkCli_Back [a] p =
           (let segments = Split cwd (CHR ''/'');
                directoriesBack = int (length segments) - index
            in if index < 0 \<or> directoriesBack \<le> 0
               then os_Exit 1 (print_err (Println_error (errors_New ''invalid index'')) p)
               else if directoriesBack = 1 then Return (print_out (Println ''/'') p)
               else Return (print_out
                      (Println (Join (take (nat directoriesBack) segments) (CHR ''/''))) p))"
  using assms by (auto simp: MarkCli_Back_def Let_def handleError_Some)

text \<open>
  C3, as amended. The back command, given the working directory \<open>cwd\<close> and the integer
  \<open>index\<close>, splits \<open>cwd\<close> at every \<^verbatim>\<open>/\<close> (the piece before the leading \<^verbatim>\<open>/\<close> counts: it
  is empty), computes \<open>directoriesBack\<close> as the number of pieces minus \<open>index\<close>, prints
  \<^verbatim>\<open>/\<close> when that is 1, fails with \<^verbatim>\<open>invalid index\<close> when it is at most 0 or \<open>index\<close> is
  negative, and otherwise prints the first \<open>directoriesBack\<close> pieces joined with \<^verbatim>\<open>/\<close>.
  For \<^verbatim>\<open>/a/b/c/d\<close>, which has 5 pieces: index 0 prints \<^verbatim>\<open>/a/b/c/d\<close>, index 1 prints
  \<^verbatim>\<open>/a/b/c\<close>, index 3 prints \<^verbatim>\<open>/a\<close>, index 4 prints \<^verbatim>\<open>/\<close>, and index 5 and index -1
  fail.
\<close>

theorem Back_algorithm:
  assumes "Getwd p = Inr cwd" and "Atoi a = Inr index"
  shows "MarkCli_Back [a] p =
           (let segments = Split cwd (CHR ''/'');
                directoriesBack = int (length segments) - index
            in if index < 0 \<or> directoriesBack \<le> 0
               then os_Exit 1 (print_err (Println_error (errors_New ''invalid index'')) p)
               else if directoriesBack = 1 then Return (print_out (Println ''/'') p)
               else Return (print_out
                      (Println (Join (take (nat directoriesBack) segments) (CHR ''/''))) p)) \<and>
         (cwd = ''/a/b/c/d'' \<longrightarrow>
            length (Split cwd (CHR ''/'')) = 5 \<and>
            MarkCli_Back [''0''] p = Return (print_out (Println ''/a/b/c/d'') p) \<and>
            MarkCli_Back [''1''] p = Return (print_out (Println ''/a/b/c'') p) \<and>
            MarkCli_Back [''3''] p = Return (print_out (Println ''/a'') p) \<and>
            MarkCli_Back [''4''] p = Return (print_out (Println ''/'') p) \<and>
            MarkCli_Back [''5''] p =
              os_Exit 1 (print_err (Println_error (errors_New ''invalid index'')) p) \<and>
            MarkCli_Back [''-1''] p =
              os_Exit 1 (print_err (Println_error (errors_New ''invalid index'')) p))"
proof -
  have ex: "MarkCli_Back [''0''] p = Return (print_out (Println ''/a/b/c/d'') p) \<and>
            MarkCli_Back [''1''] p = Return (print_out (Println ''/a/b/c'') p) \<and>
            MarkCli_Back [''3''] p = Return (print_out (Println ''/a'') p) \<and>
            MarkCli_Back [''4''] p = Return (print_out (Println ''/'') p) \<and>
            MarkCli_Back [''5''] p =
              os_Exit 1 (print_err (Println_error (errors_New ''invalid index'')) p) \<and>
            MarkCli_Back [''-1''] p =
              os_Exit 1 (print_err (Println_error (errors_New ''invalid index'')) p)"
    if "Getwd p = Inr ''/a/b/c/d''"
    using Back_general [OF that Atoi_examples(1)] Back_general [OF that Atoi_examples(2)]
      Back_general [OF that Atoi_examples(3)] Back_general [OF that Atoi_examples(4)]
      Back_general [OF that Atoi_examples(5)] Back_general [OF that Atoi_examples(6)]
    by (simp add: Split_abcd)
  show ?thesis
    using Back_general [OF assms] ex assms(1) by (simp add: Split_abcd)
qed

text \<open>The theorem for \<^verbatim>\<open>mark back 2\<close> in \<^verbatim>\<open>/home/u/src\<close>.\<close>

theorem Back_algorithm_witness:
  "Getwd \<lparr>db = \<lparr>markfile = None, faults = []\<rparr>, Getwd = Inr ''/home/u/src'',
      UserHomeDir = Inr ''/home/u'', stdout = [], stderr = []\<rparr> = Inr ''/home/u/src'' \<and>
   Atoi ''2'' = Inr 2 \<and>
   MarkCli_Back [''2'']
     \<lparr>db = \<lparr>markfile = None, faults = []\<rparr>, Getwd = Inr ''/home/u/src'',
      UserHomeDir = Inr ''/home/u'', stdout = [], stderr = []\<rparr> =
   Return
     \<lparr>db = \<lparr>markfile = None, faults = []\<rparr>, Getwd = Inr ''/home/u/src'',
      UserHomeDir = Inr ''/home/u'', stdout = [Println ''/home''], stderr = []\<rparr>"
proof -
  let ?p = "\<lparr>db = \<lparr>markfile = None, faults = []\<rparr>, Getwd = Inr ''/home/u/src'',
      UserHomeDir = Inr ''/home/u'', stdout = [], stderr = []\<rparr>"
  have g: "Getwd ?p = Inr ''/home/u/src''" by simp
  have a: "Atoi ''2'' = Inr 2" by (simp add: Atoi_def is_digit_def digit_value_def)
  show ?thesis
    using g a Back_algorithm [OF g a] by (simp add: Split_def print_out_def)
qed

text \<open>
  C3 as stated fails in its examples: in \<^verbatim>\<open>/a/b/c/d\<close> index 3 prints \<^verbatim>\<open>/a\<close>, not the
  root, and index 4 does not fail: it prints the root.
\<close>

theorem Back_counterexample:
  "MarkCli_Back [''3'']
     \<lparr>db = \<lparr>markfile = None, faults = []\<rparr>, Getwd = Inr ''/a/b/c/d'',
      UserHomeDir = Inr ''/home/u'', stdout = [], stderr = []\<rparr> =
   Return
     \<lparr>db = \<lparr>markfile = None, faults = []\<rparr>, Getwd = Inr ''/a/b/c/d'',
      UserHomeDir = Inr ''/home/u'', stdout = [Println ''/a''], stderr = []\<rparr> \<and>
   MarkCli_Back [''4'']
     \<lparr>db = \<lparr>markfile = None, faults = []\<rparr>, Getwd = Inr ''/a/b/c/d'',
      UserHomeDir = Inr ''/home/u'', stdout = [], stderr = []\<rparr> =
   Return
     \<lparr>db = \<lparr>markfile = None, faults = []\<rparr>, Getwd = Inr ''/a/b/c/d'',
      UserHomeDir = Inr ''/home/u'', stdout = [Println ''/''], stderr = []\<rparr>"
  by (simp add: MarkCli_Back_def Atoi_def is_digit_def digit_value_def Split_def print_out_def)

subsection \<open>C6: exit codes\<close>





























subsection \<open>C2: what \<^verbatim>\<open>Delete\<close> leaves\<close>

text \<open>
  \<^verbatim>\<open>Delete\<close> empties the file and hands the remaining paths to \<^verbatim>\<open>Add\<close> in their stored
  order; \<^verbatim>\<open>Add\<close> puts each in front of the ones before it. On a store that is
  \<open>stored_ok\<close>, with no system call failing, a valid index is removed and the remaining
  entries end up in reverse order.
\<close>

lemma Delete_loop_past:
  "suppliedIndex < index \<Longrightarrow> Delete_loop suppliedIndex index ps s = snd (Add_all ps s)"
  by (induction ps arbitrary: index s) (auto split: prod.splits)

lemma Delete_loop_stored:
  assumes "faults s = []" and "stored_ok s" and "list_all line_ok ps"
    and "index \<le> suppliedIndex" and "suppliedIndex < index + int (length ps)"
  shows "faults (Delete_loop suppliedIndex index ps s) = [] \<and>
         stored (Delete_loop suppliedIndex index ps s) =
           rev (take (nat (suppliedIndex - index)) ps @
                drop (nat (suppliedIndex - index) + 1) ps) @ stored s"
  using assms
proof (induction ps arbitrary: index s)
  case Nil
  then show ?case by simp
next
  case (Cons p ps)
  show ?case
  proof (cases "index = suppliedIndex")
    case True
    have "list_all line_ok ps" using Cons.prems(3) by simp
    then show ?thesis
      using True Add_all_stored [OF Cons.prems(1,2), of ps]
      by (simp add: Delete_loop_past)
  next
    case False
    let ?s = "snd (LocalMarkDB_Add p s)"
    have p: "line_ok p" "list_all line_ok ps" using Cons.prems(3) by simp_all
    note a = Add_stored [OF Cons.prems(1,2) p(1)]
    have lt: "index + 1 \<le> suppliedIndex" "suppliedIndex < index + 1 + int (length ps)"
      using False Cons.prems(4,5) by simp_all
    have n: "nat (suppliedIndex - index) = Suc (nat (suppliedIndex - (index + 1)))"
      using lt by simp
    show ?thesis
      using Cons.IH [OF a(2) a(4) p(2) lt] False a(3) by (simp add: n)
  qed
qed

lemma Delete_stored:
  assumes "faults s = []" and "stored_ok s" and "0 \<le> i" and "i < int (length (stored s))"
  shows "fst (LocalMarkDB_Delete i s) = None \<and>
         stored (snd (LocalMarkDB_Delete i s)) =
           rev (take (nat i) (stored s) @ drop (nat i + 1) (stored s))"
proof -
  let ?s2 = "s\<lparr>markfile := Some []\<rparr>"
  have c: "snd (LocalMarkDB_Clear (s\<lparr>markfile := Some (contents s)\<rparr>)) = ?s2"
    using assms(1) Clear_no_fault [of "s\<lparr>markfile := Some (contents s)\<rparr>" "contents s"] by simp
  have e: "faults ?s2 = []" "stored ?s2 = []" "stored_ok ?s2"
    using assms(1) by (simp_all add: stored_def stored_ok_def contents_def)
  have "stored (Delete_loop i 0 (stored s) ?s2) =
          rev (take (nat (i - 0)) (stored s) @ drop (nat (i - 0) + 1) (stored s)) @ stored ?s2"
    using Delete_loop_stored [OF e(1) e(3) stored_line_ok [OF assms(2)], of 0 i] assms(3,4)
    by simp
  then show ?thesis
    using assms c e(2) by (simp add: LocalMarkDB_Delete_def List_no_fault)
qed

text \<open>
  C2 says that \<^verbatim>\<open>Delete(i)\<close> leaves the remaining entries in their original relative
  order. On the store \<^verbatim>\<open>[/a, /b, /c]\<close>, \<^verbatim>\<open>Delete(0)\<close> returns no error and leaves
  \<^verbatim>\<open>[/c, /b]\<close>: the entry is removed, and the other two have changed places.
\<close>

theorem Delete_reverses_rest:
  "LocalMarkDB_List \<lparr>markfile = Some ''/a\<newline>/b\<newline>/c\<newline>'', faults = []\<rparr> =
     (Inr [''/a'', ''/b'', ''/c''],
      \<lparr>markfile = Some ''/a\<newline>/b\<newline>/c\<newline>'', faults = []\<rparr>) \<and>
   LocalMarkDB_Delete 0 \<lparr>markfile = Some ''/a\<newline>/b\<newline>/c\<newline>'', faults = []\<rparr> =
     (None, \<lparr>markfile = Some ''/c\<newline>/b\<newline>'', faults = []\<rparr>) \<and>
   LocalMarkDB_List \<lparr>markfile = Some ''/c\<newline>/b\<newline>'', faults = []\<rparr> =
     (Inr [''/c'', ''/b''], \<lparr>markfile = Some ''/c\<newline>/b\<newline>'', faults = []\<rparr>)"
  by (simp add: LocalMarkDB_Delete_def LocalMarkDB_Add_def LocalMarkDB_List_def
      LocalMarkDB_Clear_def Truncate_def OpenFile_def WriteString_def next_fault_def
      contents_def dropCR_def MaxScanTokenSize_def)

subsection \<open>C1: the add command on a path that is already stored\<close>

text \<open>
  The add command, finding the working directory in the store, prints that it moves it
  to the top, empties the file, adds the path and then every other entry in stored
  order, each through \<^verbatim>\<open>Add\<close>, which puts it in front. On a store that is
  \<open>stored_ok\<close>, with no system call failing, the path ends up last and the other entries
  in reverse order before it.
\<close>

lemma Add_loop_stored:
  assumes "faults (db q) = []" and "stored_ok (db q)" and "list_all line_ok items"
  shows "\<exists>q'. Add_loop path items q = Return q' \<and> faults (db q') = [] \<and>
           stored (db q') = rev (filter (\<lambda>item. item \<noteq> path) items) @ stored (db q) \<and>
           stdout q' = stdout q \<and> stderr q' = stderr q"
  using assms
proof (induction items arbitrary: q)
  case Nil
  then show ?case by simp
next
  case (Cons item items)
  have i: "line_ok item" "list_all line_ok items" using Cons.prems(3) by simp_all
  show ?case
  proof (cases "item = path")
    case True
    then show ?thesis using Cons.IH [OF Cons.prems(1,2) i(2)] by simp
  next
    case False
    obtain err s where a: "LocalMarkDB_Add item (db q) = (err, s)"
      by (cases "LocalMarkDB_Add item (db q)")
    have s: "err = None" "faults s = []" "stored s = item # stored (db q)" "stored_ok s"
      using Add_stored [OF Cons.prems(1,2) i(1)] a by simp_all
    have "faults (db (q\<lparr>db := s\<rparr>)) = []" "stored_ok (db (q\<lparr>db := s\<rparr>))"
      using s by simp_all
    from Cons.IH [OF this i(2)] show ?thesis
      using False a s by (auto simp: handleError_def and_then_def)
  qed
qed

lemma MarkCli_Add_stored:
  assumes "faults (db p) = []" and "stored_ok (db p)" and "Getwd p = Inr path"
    and "path \<in> set (stored (db p))"
  shows "\<exists>q. MarkCli_Add [] p = Return q \<and>
           stored (db q) = rev (filter (\<lambda>item. item \<noteq> path) (stored (db p))) @ [path]"
proof -
  let ?s = "(db p)\<lparr>markfile := Some (contents (db p))\<rparr>"
  let ?s2 = "(db p)\<lparr>markfile := Some []\<rparr>"
  let ?s3 = "snd (LocalMarkDB_Add path ?s2)"
  let ?p1 = "print_out (Println ''path already exists. Moving to top.'') (p\<lparr>db := ?s\<rparr>)"
  have ok: "list_all line_ok (stored (db p))" by (rule stored_line_ok [OF assms(2)])
  then have pk: "line_ok path" using assms(4) by (simp add: list_all_iff)
  have c: "snd (LocalMarkDB_Clear ?s) = ?s2"
    using assms(1) Clear_no_fault [of ?s "contents (db p)"] by simp
  have e: "faults ?s2 = []" "stored ?s2 = []" "stored_ok ?s2"
    using assms(1) by (simp_all add: stored_def stored_ok_def contents_def)
  note a = Add_stored [OF e(1) e(3) pk]
  have "faults (db (?p1\<lparr>db := ?s3\<rparr>)) = []" "stored_ok (db (?p1\<lparr>db := ?s3\<rparr>))"
    using a by simp_all
  from Add_loop_stored [OF this ok, of path]
  obtain q where q: "Add_loop path (stored (db p)) (?p1\<lparr>db := ?s3\<rparr>) = Return q"
    "stored (db q) = rev (filter (\<lambda>item. item \<noteq> path) (stored (db p))) @ stored ?s3"
    by auto
  have "MarkCli_Add [] p = Add_loop path (stored (db p)) (?p1\<lparr>db := ?s3\<rparr>)"
    using assms(1,3,4) c by (simp add: MarkCli_Add_def List_no_fault Let_def print_out_def)
  then show ?thesis
    using q a(3) e(2) by simp
qed

text \<open>
  C1 says that the add command in a directory that is already stored moves it to index
  0 and keeps the order of the others. With the store \<^verbatim>\<open>[/a, /b, /c]\<close> and the working
  directory \<^verbatim>\<open>/b\<close>, \<^verbatim>\<open>mark\<close> prints \<^verbatim>\<open>path already exists. Moving to top.\<close> and leaves
  \<^verbatim>\<open>[/c, /a, /b]\<close>: \<^verbatim>\<open>/b\<close> is last, and \<^verbatim>\<open>/a\<close> and \<^verbatim>\<open>/c\<close> have changed places.
\<close>

theorem Add_existing_moves_to_bottom:
  "main [''mark'']
     \<lparr>db = \<lparr>markfile = Some ''/a\<newline>/b\<newline>/c\<newline>'', faults = []\<rparr>, Getwd = Inr ''/b'',
      UserHomeDir = Inr ''/home/u'', stdout = [], stderr = []\<rparr> =
   Return
     \<lparr>db = \<lparr>markfile = Some ''/c\<newline>/a\<newline>/b\<newline>'', faults = []\<rparr>, Getwd = Inr ''/b'',
      UserHomeDir = Inr ''/home/u'',
      stdout = [Println ''path already exists. Moving to top.''], stderr = []\<rparr> \<and>
   LocalMarkDB_List \<lparr>markfile = Some ''/a\<newline>/b\<newline>/c\<newline>'', faults = []\<rparr> =
     (Inr [''/a'', ''/b'', ''/c''],
      \<lparr>markfile = Some ''/a\<newline>/b\<newline>/c\<newline>'', faults = []\<rparr>) \<and>
   LocalMarkDB_List \<lparr>markfile = Some ''/c\<newline>/a\<newline>/b\<newline>'', faults = []\<rparr> =
     (Inr [''/c'', ''/a'', ''/b''],
      \<lparr>markfile = Some ''/c\<newline>/a\<newline>/b\<newline>'', faults = []\<rparr>)"
  by (simp add: main_def commands_def MarkCli_Add_def Let_def handleError_def and_then_def
      print_out_def LocalMarkDB_Add_def LocalMarkDB_List_def
      LocalMarkDB_Clear_def Truncate_def OpenFile_def WriteString_def next_fault_def
      contents_def dropCR_def MaxScanTokenSize_def)

subsection \<open>Errors that \<^verbatim>\<open>Add\<close> loses or the add command renames\<close>

text \<open>
  \<^verbatim>\<open>Add\<close> returns the result of its last write only, and drops the result of its
  \<^verbatim>\<open>Clear\<close>. Here the write of the new path fails (the fourth system call) and the
  write of the old entry succeeds: \<^verbatim>\<open>Add\<close> returns no error and the new path is not
  stored. This is why the statements above about \<^verbatim>\<open>Add\<close> are for runs in which no
  system call fails.
\<close>

lemma Add_hides_write_error:
  "LocalMarkDB_Add ''/p''
     \<lparr>markfile = Some ''/a\<newline>'', faults = [None, None, None, Some ENOSPC]\<rparr> =
     (None, \<lparr>markfile = Some ''/a\<newline>'', faults = []\<rparr>)"
  by (simp add: LocalMarkDB_Add_def LocalMarkDB_List_def
      LocalMarkDB_Clear_def Truncate_def OpenFile_def WriteString_def next_fault_def
      contents_def dropCR_def MaxScanTokenSize_def)

text \<open>
  The add command, handed an error by \<^verbatim>\<open>Add\<close> for a path that is not yet stored,
  reports it under another message: it exits with code 1, and what it prints is
  \<^verbatim>\<open>invalid number of arguments\<close>.
\<close>

lemma Add_command_renames_error:
  assumes "Getwd p = Inr path" and "LocalMarkDB_List (db p) = (Inr paths, s)"
    and "path \<notin> set paths" and "LocalMarkDB_Add path s = (Some e, s1)"
  shows "MarkCli_Add [] p =
           os_Exit 1 (print_err (Println_error (errors_New ''invalid number of arguments''))
             (p\<lparr>db := s1\<rparr>))"
  using assms by (simp add: MarkCli_Add_def handleError_Some)

end
